theory Spec2Isabelle
  imports Complex_Main
begin

section \<open>The step wizard of the page component (src/app/page.tsx)\<close>

text \<open>
  The TypeScript union \<^verbatim>\<open>type StepId = 'connect' | 'trustline' | 'balance' | 'payment'\<close>
  is a set of string literals; at run time a step id is a string, and \<^verbatim>\<open>goToStep\<close>
  takes any \<^verbatim>\<open>string\<close> and casts it. Step ids are therefore modelled as strings,
  and membership in the union is the predicate \<open>isStepId\<close>, which is proved to hold of
  every reachable state rather than assumed. The same holds for the status literals
  \<^verbatim>\<open>'pending' | 'active' | 'done'\<close>.

  Texts of the source that are not ASCII (emoji, accented letters) are written as their
  UTF-8 bytes. The only string operations the source applies to such texts are
  concatenation and a search for an ASCII fragment, which read the same on bytes. The
  one cut by position, \<^verbatim>\<open>slice(0, 8)\<close> of the transaction hash, counts UTF-16 code
  units and is modelled so (\<open>string_slice0\<close>).
\<close>

type_synonym StepId = string

text \<open>The four \<^verbatim>\<open>useState\<close> cells of \<^verbatim>\<open>Home\<close>. A JavaScript \<^verbatim>\<open>Set\<close> is a finite set.\<close>

record Home =
  publicKey :: string
  refreshKey :: nat
  currentStep :: StepId
  completedSteps :: "StepId set"

text \<open>The initial values given to \<^verbatim>\<open>useState\<close>.\<close>

definition initial :: Home where
  "initial = \<lparr>publicKey = [], refreshKey = 0, currentStep = ''connect'', completedSteps = {}\<rparr>"

definition order :: "StepId list" where
  "order = [''connect'', ''trustline'', ''balance'', ''payment'']"

definition isStepId :: "string \<Rightarrow> bool" where
  "isStepId s = (s \<in> set order)"

text \<open>\<^verbatim>\<open>Array.prototype.indexOf\<close>: the first position of the element, or \<open>-1\<close>.\<close>

fun indexOf :: "'a list \<Rightarrow> 'a \<Rightarrow> int" where
  "indexOf [] x = - 1"
| "indexOf (y # ys) x =
     (if y = x then 0 else (let r = indexOf ys x in if r < 0 then - 1 else r + 1))"

text \<open>
  Reading an array at an integer position. Both reads of the source, \<^verbatim>\<open>order[i + 1]\<close>
  under \<^verbatim>\<open>i < order.length - 1\<close> and \<^verbatim>\<open>order[i - 1]\<close> under \<^verbatim>\<open>i > 0\<close>, are in range
  (lemma \<open>indexOf_range\<close> below), so the value JavaScript gives out of range
  (\<^verbatim>\<open>undefined\<close>) never arises; the model returns the empty string there.
\<close>

definition elemAt :: "string list \<Rightarrow> int \<Rightarrow> string" where
  "elemAt xs i = (if 0 \<le> i \<and> i < int (length xs) then xs ! nat i else [])"

definition getStepStatus :: "Home \<Rightarrow> StepId \<Rightarrow> string" where
  "getStepStatus st stepId =
     (if stepId \<in> completedSteps st then ''done''
      else if currentStep st = stepId then ''active''
      else ''pending'')"

definition goToStep :: "string \<Rightarrow> Home \<Rightarrow> Home" where
  "goToStep stepId st =
     (let step = stepId in
      if step \<in> completedSteps st \<or> step = currentStep st
      then st\<lparr>currentStep := step\<rparr>
      else st)"

definition goNext :: "Home \<Rightarrow> Home" where
  "goNext st =
     (let i = indexOf order (currentStep st) in
      if i < int (length order) - 1 then
        (let newCompleted = insert (currentStep st) (completedSteps st) in
         st\<lparr>completedSteps := newCompleted, currentStep := elemAt order (i + 1)\<rparr>)
      else
        (let newCompleted = insert (currentStep st) (completedSteps st) in
         st\<lparr>completedSteps := newCompleted\<rparr>))"

definition goPrev :: "Home \<Rightarrow> Home" where
  "goPrev st =
     (let i = indexOf order (currentStep st) in
      if i > 0 then st\<lparr>currentStep := elemAt order (i - 1)\<rparr> else st)"

definition resetFlow :: "Home \<Rightarrow> Home" where
  "resetFlow st = st\<lparr>currentStep := ''connect'', completedSteps := {}, publicKey := []\<rparr>"

definition handleWalletConnect :: "string \<Rightarrow> Home \<Rightarrow> Home" where
  "handleWalletConnect key st = st\<lparr>publicKey := key\<rparr>"

definition handleTrustlineSuccess :: "Home \<Rightarrow> Home" where
  "handleTrustlineSuccess st = st\<lparr>refreshKey := refreshKey st + 1\<rparr>"

text \<open>\<^verbatim>\<open>!!publicKey\<close> on a string is true exactly when the string is not empty.\<close>

definition canProceed :: "Home \<Rightarrow> bool" where
  "canProceed st =
     (if currentStep st = ''connect'' then publicKey st \<noteq> []
      else if currentStep st = ''trustline'' \<or> currentStep st = ''balance''
              \<or> currentStep st = ''payment'' then True
      else False)"

definition isFlowComplete :: "Home \<Rightarrow> bool" where
  "isFlowComplete st = (''balance'' \<in> completedSteps st)"

text \<open>
  The \<^verbatim>\<open>steps\<close> array handed to the \<^verbatim>\<open>Stepper\<close>. \<^verbatim>\<open>optional\<close> is an optional
  field: absent on the first three steps.
\<close>

record Step =
  id :: string
  title :: string
  description :: string
  optional :: "bool option"
  status :: string

definition steps :: "Home \<Rightarrow> Step list" where
  "steps st =
     [\<lparr>id = ''connect'', title = ''Conectar Wallet'',
       description = ''Conecta tu wallet Freighter para comenzar'',
       optional = None, status = getStepStatus st ''connect''\<rparr>,
      \<lparr>id = ''trustline'', title = ''Crear Trustline'',
       description = ''Autoriza recibir USDC en tu cuenta'',
       optional = None, status = getStepStatus st ''trustline''\<rparr>,
      \<lparr>id = ''balance'', title = ''Ver Balance'',
       description = ''Consulta tu saldo de USDC'',
       optional = None, status = getStepStatus st ''balance''\<rparr>,
      \<lparr>id = ''payment'', title = ''Path Payment'',
       description = ''Intercambia assets autom'' @ [CHR 0xC3, CHR 0xA1] @ ''ticamente'',
       optional = Some True, status = getStepStatus st ''payment''\<rparr>]"

section \<open>The progress display of the Stepper (src/components/Stepper.tsx)\<close>

text \<open>
  \<^verbatim>\<open>steps.findIndex(s => s.status === "active")\<close>: the first position whose step
  is active, or \<open>-1\<close>.
\<close>

fun findIndex :: "('a \<Rightarrow> bool) \<Rightarrow> 'a list \<Rightarrow> int" where
  "findIndex P [] = - 1"
| "findIndex P (x # xs) =
     (if P x then 0 else (let r = findIndex P xs in if r < 0 then - 1 else r + 1))"

definition activeIndex :: "Step list \<Rightarrow> int" where
  "activeIndex ss = findIndex (\<lambda>s. status s = ''active'') ss"

text \<open>\<^verbatim>\<open>steps.filter(s => s.status === "done").length\<close>\<close>

definition doneCount :: "Step list \<Rightarrow> nat" where
  "doneCount ss = length (filter (\<lambda>s. status s = ''done'') ss)"

text \<open>
  The width of the bar, \<^verbatim>\<open>(done / steps.length) * 100\<close>, and the number shown beside
  it, \<^verbatim>\<open>Math.round\<close> of the same. JavaScript computes both in binary floating point;
  the model computes them in the reals. With the four steps of the page the quotient
  is a multiple of one quarter and the product one of 0, 25, 50, 75, 100, all of which
  floating point represents and computes exactly, so the two agree there.
  \<^verbatim>\<open>Math.round(x)\<close> is the integer nearest to \<open>x\<close>, halves rounded up.
\<close>

definition Math_round :: "real \<Rightarrow> int" where
  "Math_round x = \<lfloor>x + 1 / 2\<rfloor>"

definition progressWidth :: "Step list \<Rightarrow> real" where
  "progressWidth ss = (real (doneCount ss) / real (length ss)) * 100"

definition progressLabel :: "Step list \<Rightarrow> int" where
  "progressLabel ss = Math_round ((real (doneCount ss) / real (length ss)) * 100)"

text \<open>
  The states the page can be in: the initial one, and those the event handlers of
  \<^verbatim>\<open>Home\<close> produce. \<^verbatim>\<open>goToStep\<close> is taken at every string, as its type allows.
\<close>

inductive reachable :: "Home \<Rightarrow> bool" where
  r_initial: "reachable initial"
| r_goNext: "reachable st \<Longrightarrow> reachable (goNext st)"
| r_goPrev: "reachable st \<Longrightarrow> reachable (goPrev st)"
| r_goToStep: "reachable st \<Longrightarrow> reachable (goToStep stepId st)"
| r_resetFlow: "reachable st \<Longrightarrow> reachable (resetFlow st)"
| r_handleWalletConnect: "reachable st \<Longrightarrow> reachable (handleWalletConnect key st)"
| r_handleTrustlineSuccess: "reachable st \<Longrightarrow> reachable (handleTrustlineSuccess st)"

text \<open>
  The typing discipline of the source as a predicate on states: the current step is one
  of the four ids and so is every completed step.
\<close>

definition wellFormed :: "Home \<Rightarrow> bool" where
  "wellFormed st = (isStepId (currentStep st) \<and> completedSteps st \<subseteq> set order)"

section \<open>Errors caught by the transaction components\<close>

text \<open>
  What the two \<^verbatim>\<open>catch (err: any)\<close> blocks read of the caught value:
  \<^verbatim>\<open>err?.message\<close> and \<^verbatim>\<open>err?.response?.data?.extras?.result_codes?.operations?.[0]\<close>.
  Every link of the chain may be absent, hence an \<open>option\<close>. \<open>message = None\<close> stands
  for a message that is absent or not a string (\<^verbatim>\<open>typeof err?.message === 'string'\<close>
  is false). The operation codes are strings.
\<close>

record ResultCodes =
  operations :: "string list option"

record Extras =
  result_codes :: "ResultCodes option"

record Data =
  extras :: "Extras option"

record Response =
  data :: "Data option"

record Err =
  message :: "string option"
  response :: "Response option"

text \<open>\<^verbatim>\<open>new Error(text)\<close>\<close>

definition newError :: "string \<Rightarrow> Err" where
  "newError text = \<lparr>message = Some text, response = None\<rparr>"

text \<open>\<^verbatim>\<open>String.prototype.includes\<close>: the fragment occurs somewhere in the string.\<close>

fun string_includes :: "string \<Rightarrow> string \<Rightarrow> bool" where
  "string_includes [] sub = (sub = [])"
| "string_includes (c # cs) sub = (take (length sub) (c # cs) = sub \<or> string_includes cs sub)"

text \<open>\<^verbatim>\<open>typeof err?.message === 'string' && err.message.includes(sub)\<close>\<close>

definition messageIncludes :: "Err \<Rightarrow> string \<Rightarrow> bool" where
  "messageIncludes err sub = (case message err of None \<Rightarrow> False | Some m \<Rightarrow> string_includes m sub)"

text \<open>\<^verbatim>\<open>err?.response?.data\<close>\<close>

definition responseData :: "Err \<Rightarrow> Data option" where
  "responseData err = (case response err of None \<Rightarrow> None | Some r \<Rightarrow> data r)"

text \<open>\<^verbatim>\<open>err?.response?.data?.extras?.result_codes\<close>\<close>

definition resultCodes :: "Err \<Rightarrow> ResultCodes option" where
  "resultCodes err =
     (case responseData err of None \<Rightarrow> None
      | Some d \<Rightarrow> (case extras d of None \<Rightarrow> None | Some e \<Rightarrow> result_codes e))"

text \<open>
  \<^verbatim>\<open>....result_codes?.operations?.[0]\<close>: the first operation code, \<^verbatim>\<open>undefined\<close>
  (here \<open>None\<close>) when a link is absent or the array is empty.
\<close>

definition operationCode :: "Err \<Rightarrow> string option" where
  "operationCode err =
     (case resultCodes err of None \<Rightarrow> None
      | Some rc \<Rightarrow>
          (case operations rc of None \<Rightarrow> None
           | Some ops \<Rightarrow> (case ops of [] \<Rightarrow> None | c # _ \<Rightarrow> Some c)))"


abbreviation warning_sign :: string where
  "warning_sign \<equiv> [CHR 0xE2, CHR 0x9A, CHR 0xA0, CHR 0xEF, CHR 0xB8, CHR 0x8F]"

abbreviation cross_mark :: string where
  "cross_mark \<equiv> [CHR 0xE2, CHR 0x9D, CHR 0x8C]"

abbreviation money_bag :: string where
  "money_bag \<equiv> [CHR 0xF0, CHR 0x9F, CHR 0x92, CHR 0xB0]"

abbreviation wrench :: string where
  "wrench \<equiv> [CHR 0xF0, CHR 0x9F, CHR 0x94, CHR 0xA7]"

abbreviation globe :: string where
  "globe \<equiv> [CHR 0xF0, CHR 0x9F, CHR 0x8C, CHR 0x90]"

abbreviation magnifier :: string where
  "magnifier \<equiv> [CHR 0xF0, CHR 0x9F, CHR 0x94, CHR 0x8D]"

abbreviation currency_exchange :: string where
  "currency_exchange \<equiv> [CHR 0xF0, CHR 0x9F, CHR 0x92, CHR 0xB1]"

abbreviation money_wings :: string where
  "money_wings \<equiv> [CHR 0xF0, CHR 0x9F, CHR 0x92, CHR 0xB8]"




text \<open>
  The \<^verbatim>\<open>errorMessage\<close> the catch block of \<^verbatim>\<open>createTrustline\<close> computes.
  \<^verbatim>\<open>resultCode || 'Desconocido'\<close> replaces an absent and an empty code.
\<close>

definition createTrustline_errorMessage :: "Err \<Rightarrow> string" where
  "createTrustline_errorMessage err =
     (if messageIncludes err ''User declined'' then
        (cross_mark @ '' Rechazaste la transacci'' @ [CHR 0xC3, CHR 0xB3] @ ''n en Freighter'')
      else if messageIncludes err ''User rejected'' then
        (cross_mark @ '' Rechazaste la transacci'' @ [CHR 0xC3, CHR 0xB3] @ ''n en Freighter'')
      else if responseData err \<noteq> None then
        (let resultCode = operationCode err in
         if resultCode = Some ''op_low_reserve'' then
           (money_bag @ '' Balance insuficiente. Necesitas al menos 0.5 XLM m'' @ [CHR 0xC3, CHR 0xA1] @ ''s.'')
         else if resultCode = Some ''op_line_full'' then
           (warning_sign @ '' Ya tienes la trustline creada.'')
         else if resultCode = Some ''op_malformed'' then
           (wrench @ '' Error en la construcci'' @ [CHR 0xC3, CHR 0xB3] @ ''n de la transacci'' @ [CHR 0xC3, CHR 0xB3] @ ''n. Verifica el asset.'')
         else
           (globe @ '' Error de Stellar: '') @
             (case resultCode of None \<Rightarrow> ''Desconocido''
              | Some c \<Rightarrow> if c = [] then ''Desconocido'' else c))
      else if message err = Some ''Request failed with status code 400'' then
        (wrench @ '' Error al procesar la transacci'' @ [CHR 0xC3, CHR 0xB3] @ ''n firmada. Verifica el formato del XDR.'')
      else (case message err of Some m \<Rightarrow> m | None \<Rightarrow> ''Error desconocido''))"

text \<open>
  The \<^verbatim>\<open>errorMessage\<close> the catch block of \<^verbatim>\<open>sendPathPayment\<close> computes. The
  template \<^verbatim>\<open>${code}\<close> prints an absent code as \<^verbatim>\<open>undefined\<close>.
\<close>

definition sendPathPayment_errorMessage :: "Err \<Rightarrow> string" where
  "sendPathPayment_errorMessage err =
     (if messageIncludes err ''User declined'' then
        (cross_mark @ '' Rechazaste la transacci'' @ [CHR 0xC3, CHR 0xB3] @ ''n'')
      else if messageIncludes err ''User rejected'' then
        (cross_mark @ '' Rechazaste la transacci'' @ [CHR 0xC3, CHR 0xB3] @ ''n'')
      else if resultCodes err \<noteq> None then
        (let code = operationCode err in
         if code = Some ''op_no_destination'' then
           (magnifier @ '' La cuenta destino no existe'')
         else if code = Some ''op_no_trust'' then
           (warning_sign @ '' El destino no tiene trustline para ese asset'')
         else if code = Some ''op_under_dest_min'' then
           (currency_exchange @ '' No hay suficiente liquidez en el DEX'')
         else if code = Some ''op_over_source_max'' then
           (money_bag @ '' Cantidad insuficiente'')
         else if code = Some ''op_underfunded'' then
           (money_wings @ '' Balance insuficiente'')
         else if code = Some ''op_src_no_trust'' then
           (warning_sign @ '' No tienes trustline para el asset origen'')
         else
           (globe @ '' Error de Stellar: '') @ (case code of None \<Rightarrow> ''undefined'' | Some c \<Rightarrow> c))
      else (case message err of Some m \<Rightarrow> m | None \<Rightarrow> ''Error desconocido''))"

section \<open>The state of a transaction component and the outside world\<close>

text \<open>
  \<^verbatim>\<open>status\<close> is the object \<^verbatim>\<open>{ type, message }\<close>; its fields are named \<open>stype\<close> and
  \<open>smessage\<close> here, and the state cell holding it \<open>statusValue\<close>, since \<open>status\<close> and
  \<open>message\<close> are fields of \<open>Step\<close> and \<open>Err\<close>. The console is part of the state so
  that what a run writes to it can be stated; an entry keeps the level and the text
  literal of the call, not the values printed after it.
\<close>

datatype ConsoleEntry = ConsoleLog string | ConsoleError string

record StatusValue =
  stype :: string
  smessage :: string

record View =
  loading :: bool
  statusValue :: StatusValue
  console :: "ConsoleEntry list"

text \<open>
  \<^verbatim>\<open>CreateTrustline\<close> adds \<^verbatim>\<open>trustlineExists\<close>; \<open>onSuccessCalls\<close> counts the calls
  of the \<^verbatim>\<open>onSuccess\<close> callback. \<^verbatim>\<open>PathPayment\<close> adds the two form fields.
\<close>

record TrustlineView = View +
  trustlineExists :: bool
  onSuccessCalls :: nat

record PaymentView = View +
  amount :: string
  destination :: string


definition consoleError :: "string \<Rightarrow> 'a View_scheme \<Rightarrow> 'a View_scheme" where
  "consoleError text v = v\<lparr>console := console v @ [ConsoleError text]\<rparr>"

text \<open>The \<^verbatim>\<open>asset\<close> prop, \<^verbatim>\<open>{ code, issuer }\<close> of src/lib/constants.ts.\<close>

record Asset =
  code :: string
  issuer :: string








section \<open>CreateTrustline (src/components/CreateTrustline.tsx)\<close>

record Existing =
  exists :: bool
  source :: "string option"





definition createTrustline_catch :: "Err \<Rightarrow> TrustlineView \<Rightarrow> TrustlineView" where
  "createTrustline_catch err v =
     (let v = consoleError (cross_mark @ '' Error creating trustline:'') v;
          errorMessage = createTrustline_errorMessage err
      in v\<lparr>statusValue := \<lparr>stype = ''error'', smessage = (cross_mark @ '' '') @ errorMessage\<rparr>\<rparr>)"


section \<open>PathPayment (src/components/PathPayment.tsx)\<close>


text \<open>
  \<^verbatim>\<open>result.hash.slice(0, 8)\<close> keeps the first eight UTF-16 code units of the hash.
  On the UTF-8 bytes of a string, \<open>string_slice0 s n\<close> keeps the first \<open>n\<close> units: a
  sequence of one, two or three bytes is one unit, a sequence of four bytes is a
  surrogate pair, two units. Where the cut falls inside a pair the high surrogate is
  left alone; \<open>highSurrogate\<close> writes it as the three bytes of its code, which is also how
  a surrogate that stands alone in the input is read. On ASCII text this is \<open>take n\<close>
  (lemma \<open>string_slice0_ascii\<close> below). Byte lists that encode no string are not
  values of the program; the function is total on them all the same.
\<close>

definition highSurrogate :: "char \<Rightarrow> char \<Rightarrow> char \<Rightarrow> char \<Rightarrow> string" where
  "highSurrogate b0 b1 b2 b3 =
     (let cp = (of_char b0 mod 8) * 262144 + (of_char b1 mod 64) * 4096
               + (of_char b2 mod 64) * 64 + of_char b3 mod 64 :: nat;
          hs = 55296 + (cp - 65536) div 1024
      in [CHR 0xED, char_of (128 + (hs div 64) mod 64), char_of (128 + hs mod 64)])"

fun string_slice0 :: "string \<Rightarrow> nat \<Rightarrow> string" where
  "string_slice0 [] n = []"
| "string_slice0 (b # bs) n =
     (if n = 0 then []
      else if (of_char b :: nat) < 0x80 then b # string_slice0 bs (n - 1)
      else if (of_char b :: nat) < 0xE0 then b # take 1 bs @ string_slice0 (drop 1 bs) (n - 1)
      else if (of_char b :: nat) < 0xF0 then b # take 2 bs @ string_slice0 (drop 2 bs) (n - 1)
      else if n = 1 then
        (case bs of b1 # b2 # b3 # _ \<Rightarrow> highSurrogate b b1 b2 b3 | _ \<Rightarrow> [])
      else b # take 3 bs @ string_slice0 (drop 3 bs) (n - 2))"


definition sendPathPayment_catch :: "Err \<Rightarrow> PaymentView \<Rightarrow> PaymentView" where
  "sendPathPayment_catch err v =
     (let v = consoleError (cross_mark @ '' Error in path payment:'') v;
          errorMessage = sendPathPayment_errorMessage err
      in v\<lparr>statusValue := \<lparr>stype = ''error'', smessage = (cross_mark @ '' '') @ errorMessage\<rparr>\<rparr>)"


section \<open>Initial component states and a sample of the outside world\<close>





text \<open>
  The error the ledger gateway's client throws when the ledger refuses a transaction:
  the message of the HTTP client and a response carrying the operation codes.
\<close>

definition ledgerError :: "string list \<Rightarrow> Err" where
  "ledgerError ops =
     \<lparr>message = Some ''Request failed with status code 400'',
      response = Some \<lparr>data = Some \<lparr>extras = Some \<lparr>result_codes =
        Some \<lparr>operations = Some ops\<rparr>\<rparr>\<rparr>\<rparr>\<rparr>"

section \<open>Facts about the order and its positions\<close>

lemma indexOf_range: "- 1 \<le> indexOf xs x \<and> indexOf xs x < int (length xs)"
  by (induction xs) (auto simp: Let_def)

lemma indexOf_order_cases:
  "indexOf order s =
     (if s = ''connect'' then 0 else if s = ''trustline'' then 1
      else if s = ''balance'' then 2 else if s = ''payment'' then 3 else - 1)"
  by (auto simp: order_def Let_def)

lemma isStepId_cases:
  "isStepId s \<longleftrightarrow> s = ''connect'' \<or> s = ''trustline'' \<or> s = ''balance'' \<or> s = ''payment''"
  by (auto simp: isStepId_def order_def)

lemma elemAt_order_simps:
  "elemAt order 0 = ''connect''" "elemAt order 1 = ''trustline''"
  "elemAt order 2 = ''balance''" "elemAt order 3 = ''payment''"
  by (simp_all add: elemAt_def order_def)

lemma order_facts:
  "order ! 0 = ''connect''" "order ! Suc 0 = ''trustline''" "order ! 2 = ''balance''" "order ! 3 = ''payment''"
  "length order = 4" "last order = ''payment''" "hd order = ''connect''" "distinct order"
  by (simp_all add: order_def)

section \<open>Single steps of the wizard\<close>

lemma goNext_at:
  "currentStep st = ''connect'' \<Longrightarrow>
     goNext st = st\<lparr>completedSteps := insert ''connect'' (completedSteps st), currentStep := ''trustline''\<rparr>"
  "currentStep st = ''trustline'' \<Longrightarrow>
     goNext st = st\<lparr>completedSteps := insert ''trustline'' (completedSteps st), currentStep := ''balance''\<rparr>"
  "currentStep st = ''balance'' \<Longrightarrow>
     goNext st = st\<lparr>completedSteps := insert ''balance'' (completedSteps st), currentStep := ''payment''\<rparr>"
  "currentStep st = ''payment'' \<Longrightarrow>
     goNext st = st\<lparr>completedSteps := insert ''payment'' (completedSteps st)\<rparr>"
  by (simp_all add: goNext_def indexOf_order_cases elemAt_order_simps order_facts Let_def)

lemma goPrev_at:
  "currentStep st = ''connect'' \<Longrightarrow> goPrev st = st"
  "currentStep st = ''trustline'' \<Longrightarrow> goPrev st = st\<lparr>currentStep := ''connect''\<rparr>"
  "currentStep st = ''balance'' \<Longrightarrow> goPrev st = st\<lparr>currentStep := ''trustline''\<rparr>"
  "currentStep st = ''payment'' \<Longrightarrow> goPrev st = st\<lparr>currentStep := ''balance''\<rparr>"
  "\<not> isStepId (currentStep st) \<Longrightarrow> goPrev st = st"
  by (simp_all add: goPrev_def indexOf_order_cases elemAt_order_simps order_facts Let_def isStepId_cases)

lemma goNext_nth:
  assumes "i < length order - 1" and "currentStep st = order ! i"
  shows "currentStep (goNext st) = order ! (i + 1)"
proof -
  from assms(1) have "i = 0 \<or> i = 1 \<or> i = 2"
    unfolding order_facts by arith
  with assms(2) show ?thesis
    by (elim disjE) (simp_all add: goNext_at order_def)
qed

lemma goNext_completed:
  "isStepId (currentStep st) \<Longrightarrow>
     completedSteps (goNext st) = insert (currentStep st) (completedSteps st)"
  unfolding isStepId_cases by (elim disjE) (simp_all add: goNext_at)

lemma goNext_frame: "publicKey (goNext st) = publicKey st \<and> refreshKey (goNext st) = refreshKey st"
  by (simp add: goNext_def Let_def)

lemma goNext_last:
  assumes "currentStep st = ''payment''"
  shows "currentStep (goNext st) = ''payment''" and "goNext (goNext st) = goNext st"
proof -
  show c: "currentStep (goNext st) = ''payment''"
    using assms by (simp add: goNext_at)
  show "goNext (goNext st) = goNext st"
    by (simp add: goNext_at(4) [OF c]) (simp add: goNext_at(4) [OF assms])
qed

lemma goNext_step_mono:
  assumes "isStepId (currentStep st)"
  shows "isStepId (currentStep (goNext st))"
    and "completedSteps st \<subseteq> completedSteps (goNext st)"
    and "indexOf order (currentStep st) \<le> indexOf order (currentStep (goNext st))"
    and "currentStep st = ''payment'' \<Longrightarrow> currentStep (goNext st) = ''payment''"
  using assms unfolding isStepId_cases
  by (elim disjE; simp add: goNext_at indexOf_order_cases subset_insertI)+

lemma goNext_run_isStepId: "isStepId (currentStep ((goNext ^^ n) initial))"
proof (induction n)
  case 0
  show ?case by (simp add: initial_def isStepId_cases)
next
  case (Suc n)
  from goNext_step_mono(1) [OF Suc] show ?case by simp
qed

lemma goPrev_nth:
  assumes "0 < i" and "i < length order" and "currentStep st = order ! i"
  shows "currentStep (goPrev st) = order ! (i - 1)"
proof -
  from assms(1,2) have "i = 1 \<or> i = 2 \<or> i = 3"
    unfolding order_facts by arith
  with assms(3) show ?thesis
    by (elim disjE) (simp_all add: goPrev_at order_def)
qed

section \<open>Reachable states are well formed\<close>

lemma count_members:
  assumes "distinct xs" and "C \<subseteq> set xs"
  shows "length (filter (\<lambda>x. x \<in> C) xs) = card C"
proof -
  from assms(2) have "set (filter (\<lambda>x. x \<in> C) xs) = C" by auto
  moreover from assms(1) have "distinct (filter (\<lambda>x. x \<in> C) xs)" by simp
  ultimately show ?thesis using distinct_card by metis
qed

lemma doneCount_steps: "doneCount (steps st) = length (filter (\<lambda>x. x \<in> completedSteps st) order)"
  by (simp add: doneCount_def steps_def getStepStatus_def order_def)

lemma length_steps: "length (steps st) = 4"
  by (simp add: steps_def)

lemma goPrev_keeps_id: "isStepId (currentStep st) \<Longrightarrow> isStepId (currentStep (goPrev st))"
  unfolding isStepId_cases by (elim disjE) (simp_all add: goPrev_at)

lemma goPrev_completed: "completedSteps (goPrev st) = completedSteps st"
  by (simp add: goPrev_def Let_def)

lemma reachable_wellFormed: "reachable st \<Longrightarrow> wellFormed st"
proof (induction rule: reachable.induct)
  case r_initial
  show ?case by (simp add: wellFormed_def initial_def isStepId_cases)
next
  case (r_goNext st)
  then show ?case
    by (simp add: wellFormed_def goNext_step_mono(1) goNext_completed) (simp add: isStepId_def)
next
  case (r_goPrev st)
  then show ?case by (simp add: wellFormed_def goPrev_keeps_id goPrev_completed)
next
  case (r_goToStep st stepId)
  then show ?case by (auto simp: wellFormed_def goToStep_def isStepId_def)
next
  case (r_resetFlow st)
  show ?case by (simp add: wellFormed_def resetFlow_def isStepId_cases)
next
  case (r_handleWalletConnect st key)
  then show ?case by (simp add: wellFormed_def handleWalletConnect_def)
next
  case (r_handleTrustlineSuccess st)
  then show ?case by (simp add: wellFormed_def handleTrustlineSuccess_def)
qed

lemma Math_round_of_int: "Math_round (of_int k) = k"
  unfolding Math_round_def by linarith

lemma getStepStatus_done_first:
  "currentStep st \<in> completedSteps st \<Longrightarrow> getStepStatus st x \<noteq> ''active''"
  by (auto simp: getStepStatus_def)

lemma findIndex_none: "(\<forall>x \<in> set xs. \<not> P x) \<Longrightarrow> findIndex P xs = - 1"
  by (induction xs) simp_all

lemma no_active_step:
  assumes "currentStep t \<in> completedSteps t"
  shows "\<forall>s \<in> set (steps t). status s \<noteq> ''active''"
  using getStepStatus_done_first [OF assms] by (simp add: steps_def)

section \<open>The navigation operations\<close>

text \<open>
  Claim C1. In a state whose current step is one of the four ids of \<open>order\<close>, \<^verbatim>\<open>goNext\<close>
  (advance) adds the current step to the completed set; if the current step stands at a
  position before the last one, the new current step is the id at the next position; if
  it is the last id, \<open>''payment''\<close>, the current step stays and a second \<^verbatim>\<open>goNext\<close>
  changes nothing. The public key and the refresh key are not touched.
\<close>

theorem goNext_advances:
  assumes "currentStep st \<in> set order"
  shows "completedSteps (goNext st) = insert (currentStep st) (completedSteps st)
    \<and> (\<forall>i. i < length order - 1 \<and> currentStep st = order ! i
           \<longrightarrow> currentStep (goNext st) = order ! (i + 1))
    \<and> (currentStep st = last order
           \<longrightarrow> currentStep (goNext st) = currentStep st \<and> goNext (goNext st) = goNext st)
    \<and> publicKey (goNext st) = publicKey st \<and> refreshKey (goNext st) = refreshKey st"
proof (intro conjI allI impI)
  from assms show "completedSteps (goNext st) = insert (currentStep st) (completedSteps st)"
    by (simp add: goNext_completed isStepId_def)
next
  fix i assume "i < length order - 1 \<and> currentStep st = order ! i"
  then show "currentStep (goNext st) = order ! (i + 1)"
    using goNext_nth by blast
next
  assume "currentStep st = last order"
  then have p: "currentStep st = ''payment''" by (simp add: order_facts)
  from goNext_last(1) [OF p] p show "currentStep (goNext st) = currentStep st" by simp
next
  assume "currentStep st = last order"
  then have p: "currentStep st = ''payment''" by (simp add: order_facts)
  from goNext_last(2) [OF p] show "goNext (goNext st) = goNext st" .
qed (simp_all add: goNext_frame)

theorem goNext_advances_witness:
  "currentStep initial \<in> set order
   \<and> completedSteps (goNext initial) = {''connect''}
   \<and> currentStep (goNext initial) = ''trustline''
   \<and> currentStep (initial\<lparr>currentStep := ''payment''\<rparr>) \<in> set order
   \<and> goNext (goNext (initial\<lparr>currentStep := ''payment''\<rparr>)) = goNext (initial\<lparr>currentStep := ''payment''\<rparr>)
   \<and> currentStep (goNext (initial\<lparr>currentStep := ''payment''\<rparr>)) = ''payment''"
proof -
  have m1: "currentStep initial \<in> set order"
    and m2: "currentStep (initial\<lparr>currentStep := ''payment''\<rparr>) \<in> set order"
    by (simp_all add: initial_def order_def)
  have i0: "0 < length order - 1 \<and> currentStep initial = order ! 0"
    by (simp add: initial_def order_def)
  have l: "currentStep (initial\<lparr>currentStep := ''payment''\<rparr>) = last order"
    by (simp add: order_def)
  from goNext_advances [OF m1] i0 have "currentStep (goNext initial) = order ! (0 + 1)"
    by blast
  moreover from goNext_advances [OF m1]
  have "completedSteps (goNext initial) = insert (currentStep initial) (completedSteps initial)"
    by blast
  moreover from goNext_advances [OF m2] l
  have "currentStep (goNext (initial\<lparr>currentStep := ''payment''\<rparr>))
          = currentStep (initial\<lparr>currentStep := ''payment''\<rparr>)
      \<and> goNext (goNext (initial\<lparr>currentStep := ''payment''\<rparr>))
          = goNext (initial\<lparr>currentStep := ''payment''\<rparr>)"
    by blast
  ultimately show ?thesis using m1 m2
    by (simp add: initial_def order_def)
qed

text \<open>
  Claim C2. For every state and every target, \<^verbatim>\<open>goToStep\<close> (jumpTo) returns the state
  unchanged unless the target is the current step or a completed step; when it is, the
  current step becomes the target and the completed set (and everything else) stays.
\<close>

theorem goToStep_guarded:
  "(\<not> (target = currentStep st \<or> target \<in> completedSteps st) \<longrightarrow> goToStep target st = st)
   \<and> (target = currentStep st \<or> target \<in> completedSteps st \<longrightarrow>
        currentStep (goToStep target st) = target
        \<and> completedSteps (goToStep target st) = completedSteps st
        \<and> goToStep target st = st\<lparr>currentStep := target\<rparr>)"
  by (auto simp: goToStep_def)

theorem goToStep_guarded_witness:
  "\<not> (''balance'' = currentStep initial \<or> ''balance'' \<in> completedSteps initial)
   \<and> goToStep ''balance'' initial = initial
   \<and> (''connect'' = currentStep (goNext initial) \<or> ''connect'' \<in> completedSteps (goNext initial))
   \<and> currentStep (goToStep ''connect'' (goNext initial)) = ''connect''
   \<and> completedSteps (goToStep ''connect'' (goNext initial)) = {''connect''}"
  using goToStep_guarded [of "''balance''" initial]
    goToStep_guarded [of "''connect''" "goNext initial"]
  by (simp add: initial_def goNext_at)

text \<open>
  Claim C3. Along the run of \<^verbatim>\<open>goNext\<close> calls from the initial state, the state after
  \<open>m\<close> calls compared with the state after any later number \<open>n\<close> of calls: the completed
  set has only grown, the position of the current step in \<open>order\<close> has not decreased,
  and a current step that was the last id is still the last id.
\<close>

theorem goNext_run_monotone:
  assumes "m \<le> n"
  shows "completedSteps ((goNext ^^ m) initial) \<subseteq> completedSteps ((goNext ^^ n) initial)
    \<and> indexOf order (currentStep ((goNext ^^ m) initial))
        \<le> indexOf order (currentStep ((goNext ^^ n) initial))
    \<and> (currentStep ((goNext ^^ m) initial) = last order
        \<longrightarrow> currentStep ((goNext ^^ n) initial) = last order)"
  using assms
proof (induction n rule: dec_induct)
  case base
  show ?case by simp
next
  case (step k)
  let ?a = "(goNext ^^ m) initial" and ?b = "(goNext ^^ k) initial"
  have id: "isStepId (currentStep ?b)" by (rule goNext_run_isStepId)
  have s: "(goNext ^^ Suc k) initial = goNext ?b" by simp
  from goNext_step_mono(2) [OF id] step.IH
  have 1: "completedSteps ?a \<subseteq> completedSteps (goNext ?b)" by blast
  from goNext_step_mono(3) [OF id] step.IH
  have 2: "indexOf order (currentStep ?a) \<le> indexOf order (currentStep (goNext ?b))" by linarith
  from goNext_step_mono(4) [OF id] step.IH
  have 3: "currentStep ?a = last order \<longrightarrow> currentStep (goNext ?b) = last order"
    by (simp add: order_facts)
  from 1 2 3 show ?case unfolding s by blast
qed

theorem goNext_run_monotone_witness:
  "(1::nat) \<le> 5
   \<and> completedSteps ((goNext ^^ 1) initial) \<subseteq> completedSteps ((goNext ^^ 5) initial)
   \<and> indexOf order (currentStep ((goNext ^^ 1) initial))
        \<le> indexOf order (currentStep ((goNext ^^ 5) initial))
   \<and> (4::nat) \<le> 5 \<and> currentStep ((goNext ^^ 4) initial) = last order
   \<and> currentStep ((goNext ^^ 5) initial) = last order"
proof -
  have a: "(1::nat) \<le> 5" and b: "(4::nat) \<le> 5" by simp_all
  have c: "currentStep ((goNext ^^ 4) initial) = last order"
    by (simp add: numeral_eq_Suc initial_def goNext_at order_facts)
  from goNext_run_monotone [OF a] goNext_run_monotone [OF b] a b c show ?thesis by blast
qed

text \<open>
  Claim C4. For every state, \<^verbatim>\<open>goPrev\<close> (retreat) leaves the completed set (and the
  public key and the refresh key) as they are; a current step at a position after the
  first moves to the id at the previous position; at the first id, \<open>''connect''\<close>, the
  call returns the state unchanged.
\<close>

theorem goPrev_retreats:
  "completedSteps (goPrev st) = completedSteps st
   \<and> publicKey (goPrev st) = publicKey st \<and> refreshKey (goPrev st) = refreshKey st
   \<and> (\<forall>i. 0 < i \<and> i < length order \<and> currentStep st = order ! i
          \<longrightarrow> currentStep (goPrev st) = order ! (i - 1))
   \<and> (currentStep st = hd order \<longrightarrow> goPrev st = st)"
proof (intro conjI allI impI)
  fix i assume "0 < i \<and> i < length order \<and> currentStep st = order ! i"
  then show "currentStep (goPrev st) = order ! (i - 1)"
    using goPrev_nth by blast
next
  assume "currentStep st = hd order"
  then show "goPrev st = st" by (simp add: order_facts goPrev_at)
qed (simp_all add: goPrev_def Let_def)

theorem goPrev_retreats_witness:
  "(0::nat) < 1 \<and> 1 < length order \<and> currentStep (goNext initial) = order ! 1
   \<and> currentStep (goPrev (goNext initial)) = ''connect''
   \<and> completedSteps (goPrev (goNext initial)) = {''connect''}
   \<and> currentStep initial = hd order \<and> goPrev initial = initial"
proof -
  have h: "(0::nat) < 1 \<and> 1 < length order \<and> currentStep (goNext initial) = order ! 1"
    by (simp add: initial_def goNext_at order_facts)
  have k: "currentStep initial = hd order"
    by (simp add: initial_def order_facts)
  from goPrev_retreats [of "goNext initial"] h
  have "currentStep (goPrev (goNext initial)) = order ! (1 - 1)" by blast
  moreover from goPrev_retreats [of "goNext initial"]
  have "completedSteps (goPrev (goNext initial)) = completedSteps (goNext initial)" by blast
  moreover from goPrev_retreats [of initial] k have "goPrev initial = initial" by blast
  ultimately show ?thesis using h k
    by (simp add: initial_def goNext_at order_facts)
qed

text \<open>
  Claim C5. From every state, \<^verbatim>\<open>resetFlow\<close> (reset) makes \<open>''connect''\<close>, the first
  id, the current step, empties the completed set and sets the public key to the empty
  string: the result is the initial state, but for the refresh key, which it keeps.
\<close>

theorem resetFlow_restores:
  "currentStep (resetFlow st) = ''connect'' \<and> currentStep (resetFlow st) = hd order
   \<and> completedSteps (resetFlow st) = {} \<and> publicKey (resetFlow st) = []
   \<and> resetFlow st = initial\<lparr>refreshKey := refreshKey st\<rparr>"
  by (simp add: resetFlow_def order_facts initial_def)

text \<open>
  Claim C7. \<^verbatim>\<open>canProceed\<close> (canAdvance) is false at step \<open>''connect''\<close> with an empty
  public key, true at \<open>''connect''\<close> with a non-empty one, and true at each of
  \<open>''trustline''\<close>, \<open>''balance''\<close> and \<open>''payment''\<close> whatever the public key.
\<close>

theorem canProceed_by_step:
  "(currentStep st = ''connect'' \<and> publicKey st = [] \<longrightarrow> \<not> canProceed st)
   \<and> (currentStep st = ''connect'' \<and> publicKey st \<noteq> [] \<longrightarrow> canProceed st)
   \<and> (currentStep st = ''trustline'' \<or> currentStep st = ''balance''
        \<or> currentStep st = ''payment'' \<longrightarrow> canProceed st)"
  by (auto simp: canProceed_def)

theorem canProceed_by_step_witness:
  "currentStep initial = ''connect'' \<and> publicKey initial = [] \<and> \<not> canProceed initial
   \<and> currentStep (handleWalletConnect ''GABC'' initial) = ''connect''
   \<and> publicKey (handleWalletConnect ''GABC'' initial) \<noteq> []
   \<and> canProceed (handleWalletConnect ''GABC'' initial)
   \<and> currentStep (goNext initial) = ''trustline'' \<and> canProceed (goNext initial)"
  using canProceed_by_step [of initial] canProceed_by_step [of "handleWalletConnect ''GABC'' initial"]
    canProceed_by_step [of "goNext initial"]
  by (simp add: initial_def handleWalletConnect_def goNext_at)

section \<open>The derived status and the progress display\<close>

text \<open>
  Claim C6. In every state reachable through the handlers of the page, the completed
  set holds step ids only, the number of steps the Stepper finds with status
  \<open>''done''\<close> is the cardinality of the completed set, and both the width of the bar and
  the rounded number shown are exactly \<open>100 * |completedSteps| / 4\<close>.
\<close>

theorem progress_exact:
  assumes "reachable st"
  shows "completedSteps st \<subseteq> set order
    \<and> doneCount (steps st) = card (completedSteps st)
    \<and> progressWidth (steps st) = 100 * real (card (completedSteps st)) / 4
    \<and> real_of_int (progressLabel (steps st)) = 100 * real (card (completedSteps st)) / 4"
proof -
  from reachable_wellFormed [OF assms] have sub: "completedSteps st \<subseteq> set order"
    by (simp add: wellFormed_def)
  have cnt: "doneCount (steps st) = card (completedSteps st)"
    unfolding doneCount_steps using order_facts(8) sub by (rule count_members)
  have w: "progressWidth (steps st) = 100 * real (card (completedSteps st)) / 4"
    by (simp add: progressWidth_def length_steps cnt)
  have "(real (doneCount (steps st)) / real (length (steps st))) * 100
          = real_of_int (25 * int (card (completedSteps st)))"
    by (simp add: length_steps cnt)
  then have "progressLabel (steps st) = 25 * int (card (completedSteps st))"
    unfolding progressLabel_def by (simp only: Math_round_of_int)
  then have l: "real_of_int (progressLabel (steps st)) = 100 * real (card (completedSteps st)) / 4"
    by simp
  from sub cnt w l show ?thesis by blast
qed

theorem progress_exact_witness:
  "reachable (goNext initial)
   \<and> doneCount (steps (goNext initial)) = 1
   \<and> progressWidth (steps (goNext initial)) = 25
   \<and> progressLabel (steps (goNext initial)) = 25"
proof -
  have r: "reachable (goNext initial)" by (intro reachable.intros)
  have c: "card (completedSteps (goNext initial)) = 1"
    by (simp add: initial_def goNext_at)
  from progress_exact [OF r] r show ?thesis unfolding c by simp
qed

text \<open>
  Claim C10. \<^verbatim>\<open>getStepStatus\<close> tests the completed set first: when the current step is in
  it, its status is \<open>''done''\<close>, no step of the Stepper is \<open>''active''\<close> and the Stepper's
  \<^verbatim>\<open>activeIndex\<close> is \<open>-1\<close>. Such states are reachable: \<^verbatim>\<open>goNext\<close> at \<open>''payment''\<close>
  gives one, and so does \<^verbatim>\<open>goToStep\<close> to a completed step.
\<close>

theorem done_before_active:
  "(currentStep st \<in> completedSteps st \<longrightarrow>
      getStepStatus st (currentStep st) = ''done''
      \<and> (\<forall>s \<in> set (steps st). status s \<noteq> ''active'')
      \<and> activeIndex (steps st) = - 1)
   \<and> (reachable st \<and> currentStep st = ''payment'' \<longrightarrow>
        reachable (goNext st) \<and> currentStep (goNext st) = ''payment''
        \<and> (\<forall>s \<in> set (steps (goNext st)). status s \<noteq> ''active''))
   \<and> (reachable st \<and> target \<in> completedSteps st \<longrightarrow>
        reachable (goToStep target st) \<and> currentStep (goToStep target st) = target
        \<and> (\<forall>s \<in> set (steps (goToStep target st)). status s \<noteq> ''active''))
   \<and> (\<exists>t. reachable t \<and> (\<forall>s \<in> set (steps t). status s \<noteq> ''active''))"
proof -
  have a: "getStepStatus st (currentStep st) = ''done''
      \<and> (\<forall>s \<in> set (steps st). status s \<noteq> ''active'') \<and> activeIndex (steps st) = - 1"
    if h: "currentStep st \<in> completedSteps st"
  proof -
    from h have "getStepStatus st (currentStep st) = ''done''" by (simp add: getStepStatus_def)
    moreover from no_active_step [OF h] have "activeIndex (steps st) = - 1"
      unfolding activeIndex_def by (intro findIndex_none) simp
    ultimately show ?thesis using no_active_step [OF h] by blast
  qed
  have b: "reachable (goNext st) \<and> currentStep (goNext st) = ''payment''
        \<and> (\<forall>s \<in> set (steps (goNext st)). status s \<noteq> ''active'')"
    if r: "reachable st" and p: "currentStep st = ''payment''"
  proof -
    have "currentStep (goNext st) \<in> completedSteps (goNext st)"
      using p by (simp add: goNext_at)
    from no_active_step [OF this] r p show ?thesis
      by (simp add: reachable.intros goNext_last(1))
  qed
  have c: "reachable (goToStep target st) \<and> currentStep (goToStep target st) = target
        \<and> (\<forall>s \<in> set (steps (goToStep target st)). status s \<noteq> ''active'')"
    if r: "reachable st" and p: "target \<in> completedSteps st"
  proof -
    have "currentStep (goToStep target st) \<in> completedSteps (goToStep target st)"
      using p by (simp add: goToStep_def)
    from no_active_step [OF this] r p show ?thesis
      by (simp add: reachable.intros) (simp add: goToStep_def)
  qed
  have d: "\<exists>t. reachable t \<and> (\<forall>s \<in> set (steps t). status s \<noteq> ''active'')"
  proof (intro exI conjI)
    show "reachable (goToStep ''connect'' (goNext initial))"
      by (intro reachable.intros)
    have "currentStep (goToStep ''connect'' (goNext initial))
            \<in> completedSteps (goToStep ''connect'' (goNext initial))"
      by (simp add: goToStep_def initial_def goNext_at Let_def)
    then show "\<forall>s \<in> set (steps (goToStep ''connect'' (goNext initial))). status s \<noteq> ''active''"
      by (rule no_active_step)
  qed
  from a b c d show ?thesis by blast
qed

theorem done_before_active_witness:
  "reachable (goNext (goNext (goNext initial)))
   \<and> currentStep (goNext (goNext (goNext initial))) = ''payment''
   \<and> currentStep (goNext (goNext (goNext (goNext initial)))) = ''payment''
   \<and> ''active'' \<notin> status ` set (steps (goNext (goNext (goNext (goNext initial)))))
   \<and> reachable (goNext initial) \<and> ''connect'' \<in> completedSteps (goNext initial)
   \<and> currentStep (goToStep ''connect'' (goNext initial)) = ''connect''
   \<and> ''active'' \<notin> status ` set (steps (goToStep ''connect'' (goNext initial)))"
proof -
  have r3: "reachable (goNext (goNext (goNext initial)))"
    and r1: "reachable (goNext initial)"
    by (intro reachable.intros)+
  have p: "currentStep (goNext (goNext (goNext initial))) = ''payment''"
    by (simp add: initial_def goNext_at)
  have m: "''connect'' \<in> completedSteps (goNext initial)"
    by (simp add: initial_def goNext_at)
  from done_before_active [of "goNext (goNext (goNext initial))" "''connect''"] r3 p
  have "currentStep (goNext (goNext (goNext (goNext initial)))) = ''payment''
     \<and> (\<forall>s \<in> set (steps (goNext (goNext (goNext (goNext initial))))). status s \<noteq> ''active'')"
    by blast
  then have "currentStep (goNext (goNext (goNext (goNext initial)))) = ''payment''
     \<and> ''active'' \<notin> status ` set (steps (goNext (goNext (goNext (goNext initial)))))"
    by (auto simp: image_iff)
  moreover from done_before_active [of "goNext initial" "''connect''"] r1 m
  have "currentStep (goToStep ''connect'' (goNext initial)) = ''connect''
     \<and> (\<forall>s \<in> set (steps (goToStep ''connect'' (goNext initial))). status s \<noteq> ''active'')"
    by blast
  then have "currentStep (goToStep ''connect'' (goNext initial)) = ''connect''
     \<and> ''active'' \<notin> status ` set (steps (goToStep ''connect'' (goNext initial)))"
    by (auto simp: image_iff)
  ultimately show ?thesis using r3 r1 p m by blast
qed

section \<open>The error messages of the transaction components\<close>

text \<open>
  \<open>string_includes\<close> is what \<^verbatim>\<open>includes\<close> means: the fragment occurs between a prefix
  and a suffix.
\<close>

lemma string_includes_iff: "string_includes s sub \<longleftrightarrow> (\<exists>a b. s = a @ sub @ b)"
proof (induction s)
  case Nil
  show ?case by auto
next
  case (Cons c cs)
  have "take (length sub) (c # cs) = sub \<longleftrightarrow> (\<exists>b. c # cs = sub @ b)"
    by (metis append_eq_conv_conj append_take_drop_id)
  moreover have "(\<exists>a b. c # cs = a @ sub @ b)
      \<longleftrightarrow> (\<exists>b. c # cs = sub @ b) \<or> (\<exists>a b. cs = a @ sub @ b)"
  proof
    assume "\<exists>a b. c # cs = a @ sub @ b"
    then obtain a b where e: "c # cs = a @ sub @ b" by blast
    show "(\<exists>b. c # cs = sub @ b) \<or> (\<exists>a b. cs = a @ sub @ b)"
    proof (cases a)
      case Nil
      with e show ?thesis by auto
    next
      case (Cons x xs)
      with e have "cs = xs @ sub @ b" by simp
      then show ?thesis by blast
    qed
  next
    assume "(\<exists>b. c # cs = sub @ b) \<or> (\<exists>a b. cs = a @ sub @ b)"
    then show "\<exists>a b. c # cs = a @ sub @ b"
    proof
      assume "\<exists>b. c # cs = sub @ b"
      then show ?thesis by (metis append_Nil)
    next
      assume "\<exists>a b. cs = a @ sub @ b"
      then obtain a b where "cs = a @ sub @ b" by blast
      then have "c # cs = (c # a) @ sub @ b" by simp
      then show ?thesis by blast
    qed
  qed
  ultimately show ?case using Cons.IH by simp
qed

lemma operationCode_present:
  assumes "operationCode err = Some c"
  shows "resultCodes err \<noteq> None" and "responseData err \<noteq> None"
  using assms
  by (auto simp: operationCode_def resultCodes_def split: option.splits)

lemma createTrustline_errorMessage_rejected:
  assumes "messageIncludes err ''User declined'' \<or> messageIncludes err ''User rejected''"
  shows "createTrustline_errorMessage err = (cross_mark @ '' Rechazaste la transacci'' @ [CHR 0xC3, CHR 0xB3] @ ''n en Freighter'')"
  using assms by (auto simp: createTrustline_errorMessage_def)

lemma sendPathPayment_errorMessage_rejected:
  assumes "messageIncludes err ''User declined'' \<or> messageIncludes err ''User rejected''"
  shows "sendPathPayment_errorMessage err = (cross_mark @ '' Rechazaste la transacci'' @ [CHR 0xC3, CHR 0xB3] @ ''n'')"
  using assms by (auto simp: sendPathPayment_errorMessage_def)

lemma createTrustline_errorMessage_code:
  assumes "\<not> messageIncludes err ''User declined''" and "\<not> messageIncludes err ''User rejected''"
    and "operationCode err = Some c"
  shows "createTrustline_errorMessage err =
     (if c = ''op_low_reserve'' then
        (money_bag @ '' Balance insuficiente. Necesitas al menos 0.5 XLM m'' @ [CHR 0xC3, CHR 0xA1] @ ''s.'')
      else if c = ''op_line_full'' then
        (warning_sign @ '' Ya tienes la trustline creada.'')
      else if c = ''op_malformed'' then
        (wrench @ '' Error en la construcci'' @ [CHR 0xC3, CHR 0xB3] @ ''n de la transacci'' @ [CHR 0xC3, CHR 0xB3] @ ''n. Verifica el asset.'')
      else (globe @ '' Error de Stellar: '') @ (if c = [] then ''Desconocido'' else c))"
  using assms operationCode_present(2) [OF assms(3)]
  by (simp add: createTrustline_errorMessage_def)

lemma sendPathPayment_errorMessage_code:
  assumes "\<not> messageIncludes err ''User declined''" and "\<not> messageIncludes err ''User rejected''"
    and "operationCode err = Some c"
  shows "sendPathPayment_errorMessage err =
     (if c = ''op_no_destination'' then
        (magnifier @ '' La cuenta destino no existe'')
      else if c = ''op_no_trust'' then
        (warning_sign @ '' El destino no tiene trustline para ese asset'')
      else if c = ''op_under_dest_min'' then
        (currency_exchange @ '' No hay suficiente liquidez en el DEX'')
      else if c = ''op_over_source_max'' then
        (money_bag @ '' Cantidad insuficiente'')
      else if c = ''op_underfunded'' then
        (money_wings @ '' Balance insuficiente'')
      else if c = ''op_src_no_trust'' then
        (warning_sign @ '' No tienes trustline para el asset origen'')
      else (globe @ '' Error de Stellar: '') @ c)"
  using assms operationCode_present(1) [OF assms(3)]
  by (simp add: sendPathPayment_errorMessage_def)

text \<open>
  Claim C8. In the catch blocks of \<^verbatim>\<open>createTrustline\<close> and \<^verbatim>\<open>sendPathPayment\<close>: an
  error whose message contains \<^verbatim>\<open>User declined\<close> or \<^verbatim>\<open>User rejected\<close> gets the
  user-rejected message of the component. Any other error that carries an operation
  result code gets the fixed message of that code where the component knows it (three
  codes in \<^verbatim>\<open>createTrustline\<close>, six in \<^verbatim>\<open>sendPathPayment\<close>) and otherwise the generic
  ledger-error message followed by the raw code (\<^verbatim>\<open>createTrustline\<close> prints
  \<^verbatim>\<open>Desconocido\<close> in place of an empty code); none of these is the user-rejected
  message. The status set is of type \<^verbatim>\<open>error\<close> and shows that message after a cross
  mark.
\<close>

theorem ledger_error_messages:
  "(messageIncludes err ''User declined'' \<or> messageIncludes err ''User rejected'' \<longrightarrow>
      createTrustline_errorMessage err = (cross_mark @ '' Rechazaste la transacci'' @ [CHR 0xC3, CHR 0xB3] @ ''n en Freighter'')
      \<and> sendPathPayment_errorMessage err = (cross_mark @ '' Rechazaste la transacci'' @ [CHR 0xC3, CHR 0xB3] @ ''n''))
   \<and> (\<not> messageIncludes err ''User declined'' \<and> \<not> messageIncludes err ''User rejected''
        \<and> operationCode err = Some c \<longrightarrow>
      createTrustline_errorMessage err =
        (if c = ''op_low_reserve'' then
           (money_bag @ '' Balance insuficiente. Necesitas al menos 0.5 XLM m'' @ [CHR 0xC3, CHR 0xA1] @ ''s.'')
         else if c = ''op_line_full'' then
           (warning_sign @ '' Ya tienes la trustline creada.'')
         else if c = ''op_malformed'' then
           (wrench @ '' Error en la construcci'' @ [CHR 0xC3, CHR 0xB3] @ ''n de la transacci'' @ [CHR 0xC3, CHR 0xB3] @ ''n. Verifica el asset.'')
         else (globe @ '' Error de Stellar: '') @ (if c = [] then ''Desconocido'' else c))
      \<and> sendPathPayment_errorMessage err =
        (if c = ''op_no_destination'' then
           (magnifier @ '' La cuenta destino no existe'')
         else if c = ''op_no_trust'' then
           (warning_sign @ '' El destino no tiene trustline para ese asset'')
         else if c = ''op_under_dest_min'' then
           (currency_exchange @ '' No hay suficiente liquidez en el DEX'')
         else if c = ''op_over_source_max'' then
           (money_bag @ '' Cantidad insuficiente'')
         else if c = ''op_underfunded'' then
           (money_wings @ '' Balance insuficiente'')
         else if c = ''op_src_no_trust'' then
           (warning_sign @ '' No tienes trustline para el asset origen'')
         else (globe @ '' Error de Stellar: '') @ c)
      \<and> createTrustline_errorMessage err \<noteq> (cross_mark @ '' Rechazaste la transacci'' @ [CHR 0xC3, CHR 0xB3] @ ''n en Freighter'')
      \<and> sendPathPayment_errorMessage err \<noteq> (cross_mark @ '' Rechazaste la transacci'' @ [CHR 0xC3, CHR 0xB3] @ ''n''))
   \<and> statusValue (createTrustline_catch err v) =
        \<lparr>stype = ''error'', smessage = (cross_mark @ '' '') @ createTrustline_errorMessage err\<rparr>
   \<and> statusValue (sendPathPayment_catch err w) =
        \<lparr>stype = ''error'', smessage = (cross_mark @ '' '') @ sendPathPayment_errorMessage err\<rparr>"
proof (intro conjI impI)
  assume r: "messageIncludes err ''User declined'' \<or> messageIncludes err ''User rejected''"
  from r show "createTrustline_errorMessage err = (cross_mark @ '' Rechazaste la transacci'' @ [CHR 0xC3, CHR 0xB3] @ ''n en Freighter'')"
    by (rule createTrustline_errorMessage_rejected)
  from r show "sendPathPayment_errorMessage err = (cross_mark @ '' Rechazaste la transacci'' @ [CHR 0xC3, CHR 0xB3] @ ''n'')"
    by (rule sendPathPayment_errorMessage_rejected)
next
  assume h: "\<not> messageIncludes err ''User declined'' \<and> \<not> messageIncludes err ''User rejected''
        \<and> operationCode err = Some c"
  then have h1: "\<not> messageIncludes err ''User declined''"
    and h2: "\<not> messageIncludes err ''User rejected''" and h3: "operationCode err = Some c"
    by simp_all
  note t = createTrustline_errorMessage_code [OF h1 h2 h3]
  note p = sendPathPayment_errorMessage_code [OF h1 h2 h3]
  from t show "createTrustline_errorMessage err =
        (if c = ''op_low_reserve'' then
           (money_bag @ '' Balance insuficiente. Necesitas al menos 0.5 XLM m'' @ [CHR 0xC3, CHR 0xA1] @ ''s.'')
         else if c = ''op_line_full'' then
           (warning_sign @ '' Ya tienes la trustline creada.'')
         else if c = ''op_malformed'' then
           (wrench @ '' Error en la construcci'' @ [CHR 0xC3, CHR 0xB3] @ ''n de la transacci'' @ [CHR 0xC3, CHR 0xB3] @ ''n. Verifica el asset.'')
         else (globe @ '' Error de Stellar: '') @ (if c = [] then ''Desconocido'' else c))" .
  from p show "sendPathPayment_errorMessage err =
        (if c = ''op_no_destination'' then
           (magnifier @ '' La cuenta destino no existe'')
         else if c = ''op_no_trust'' then
           (warning_sign @ '' El destino no tiene trustline para ese asset'')
         else if c = ''op_under_dest_min'' then
           (currency_exchange @ '' No hay suficiente liquidez en el DEX'')
         else if c = ''op_over_source_max'' then
           (money_bag @ '' Cantidad insuficiente'')
         else if c = ''op_underfunded'' then
           (money_wings @ '' Balance insuficiente'')
         else if c = ''op_src_no_trust'' then
           (warning_sign @ '' No tienes trustline para el asset origen'')
         else (globe @ '' Error de Stellar: '') @ c)" .
  show "createTrustline_errorMessage err \<noteq> (cross_mark @ '' Rechazaste la transacci'' @ [CHR 0xC3, CHR 0xB3] @ ''n en Freighter'')"
    unfolding t by simp
  show "sendPathPayment_errorMessage err \<noteq> (cross_mark @ '' Rechazaste la transacci'' @ [CHR 0xC3, CHR 0xB3] @ ''n'')"
    unfolding p by simp
next
  show "statusValue (createTrustline_catch err v) =
        \<lparr>stype = ''error'', smessage = (cross_mark @ '' '') @ createTrustline_errorMessage err\<rparr>"
    by (simp add: createTrustline_catch_def consoleError_def Let_def)
  show "statusValue (sendPathPayment_catch err w) =
        \<lparr>stype = ''error'', smessage = (cross_mark @ '' '') @ sendPathPayment_errorMessage err\<rparr>"
    by (simp add: sendPathPayment_catch_def consoleError_def Let_def)
qed

theorem ledger_error_messages_witness:
  "messageIncludes (newError ''User declined access'') ''User declined''
   \<and> createTrustline_errorMessage (newError ''User declined access'')
       = (cross_mark @ '' Rechazaste la transacci'' @ [CHR 0xC3, CHR 0xB3] @ ''n en Freighter'')
   \<and> sendPathPayment_errorMessage (newError ''User declined access'')
       = (cross_mark @ '' Rechazaste la transacci'' @ [CHR 0xC3, CHR 0xB3] @ ''n'')
   \<and> \<not> messageIncludes (ledgerError [''op_low_reserve'']) ''User declined''
   \<and> \<not> messageIncludes (ledgerError [''op_low_reserve'']) ''User rejected''
   \<and> operationCode (ledgerError [''op_low_reserve'']) = Some ''op_low_reserve''
   \<and> createTrustline_errorMessage (ledgerError [''op_low_reserve''])
       = (money_bag @ '' Balance insuficiente. Necesitas al menos 0.5 XLM m'' @ [CHR 0xC3, CHR 0xA1] @ ''s.'')
   \<and> sendPathPayment_errorMessage (ledgerError [''op_low_reserve''])
       = (globe @ '' Error de Stellar: op_low_reserve'')"
proof -
  have a: "messageIncludes (newError ''User declined access'') ''User declined''"
    by (simp add: messageIncludes_def newError_def)
  have b: "\<not> messageIncludes (ledgerError [''op_low_reserve'']) ''User declined''
      \<and> \<not> messageIncludes (ledgerError [''op_low_reserve'']) ''User rejected''
      \<and> operationCode (ledgerError [''op_low_reserve'']) = Some ''op_low_reserve''"
    by (simp add: messageIncludes_def ledgerError_def operationCode_def resultCodes_def
        responseData_def)
  from ledger_error_messages [of "newError ''User declined access''"] a
  have 1: "createTrustline_errorMessage (newError ''User declined access'')
       = (cross_mark @ '' Rechazaste la transacci'' @ [CHR 0xC3, CHR 0xB3] @ ''n en Freighter'')
     \<and> sendPathPayment_errorMessage (newError ''User declined access'')
       = (cross_mark @ '' Rechazaste la transacci'' @ [CHR 0xC3, CHR 0xB3] @ ''n'')"
    by blast
  from ledger_error_messages [of "ledgerError [''op_low_reserve'']" "''op_low_reserve''"] b
  have 2: "createTrustline_errorMessage (ledgerError [''op_low_reserve''])
       = (money_bag @ '' Balance insuficiente. Necesitas al menos 0.5 XLM m'' @ [CHR 0xC3, CHR 0xA1] @ ''s.'')
     \<and> sendPathPayment_errorMessage (ledgerError [''op_low_reserve''])
       = (globe @ '' Error de Stellar: op_low_reserve'')"
    by simp
  from a b 1 2 show ?thesis by blast
qed

section \<open>A failed database insert after a successful submission\<close>

text \<open>
  \<open>string_slice0\<close> on text that is ASCII throughout, such as the hexadecimal hash the
  ledger gives, and on two texts that are not: two-byte characters count one unit
  each, and a cut inside a surrogate pair leaves the high surrogate.
\<close>

lemma string_slice0_ascii:
  "\<forall>c \<in> set s. (of_char c :: nat) < 0x80 \<Longrightarrow> string_slice0 s n = take n s"
proof (induction s arbitrary: n)
  case Nil
  show ?case by simp
next
  case (Cons b bs)
  then have "string_slice0 bs (n - 1) = take (n - 1) bs" by simp
  with Cons.prems show ?case by (cases n) simp_all
qed

lemma string_slice0_two_byte:
  "string_slice0 (concat (replicate 9 [CHR 0xC3, CHR 0xA9])) 8
     = concat (replicate 8 [CHR 0xC3, CHR 0xA9])"
  by code_simp

lemma string_slice0_inside_pair:
  "string_slice0 (''abcdefg'' @ [CHR 0xF0, CHR 0x9F, CHR 0x98, CHR 0x80] @ ''xyz'') 8
     = ''abcdefg'' @ [CHR 0xED, CHR 0xA0, CHR 0xBD]"
  by (simp add: highSurrogate_def Let_def char_of_def bit_0)








end
